theory Spec2Isabelle
  imports Complex_Main
begin

section \<open>Arrays\<close>

text \<open>
  The simulator works on numpy arrays of 64-bit floats.  The development reads a float as
  the real number it stands for and every floating-point operation as the exact operation
  on the reals: rounding, overflow, infinities and NaN are outside the model.  A
  one-dimensional array is a list; a two-dimensional array keeps its column count next to
  its rows, so that an array of shape \<open>(0, 10)\<close> differs from one of shape \<open>(0, 9)\<close>.
\<close>

datatype error = IndexError | ValueError | LinAlgError

record matrix =
  ncols :: nat
  rows :: "real list list"

definition nrows :: "matrix \<Rightarrow> nat" where
  "nrows m = length (rows m)"

definition wf_matrix :: "matrix \<Rightarrow> bool" where
  "wf_matrix m = list_all (\<lambda>r. length r = ncols m) (rows m)"

text \<open>\<open>m[i, j]\<close> for indices inside the shape.\<close>

definition entry :: "matrix \<Rightarrow> nat \<Rightarrow> nat \<Rightarrow> real" where
  "entry m i j = rows m ! i ! j"

definition mk_matrix :: "nat \<Rightarrow> nat \<Rightarrow> (nat \<Rightarrow> nat \<Rightarrow> real) \<Rightarrow> matrix" where
  "mk_matrix r c f = \<lparr>ncols = c, rows = map (\<lambda>i. map (\<lambda>j. f i j) [0..<c]) [0..<r]\<rparr>"

text \<open>\<open>np.zeros((r, c))\<close>, \<open>np.arange(n)\<close> and \<open>np.eye(n)\<close>.\<close>

definition np_zeros :: "nat \<Rightarrow> nat \<Rightarrow> matrix" where
  "np_zeros r c = \<lparr>ncols = c, rows = replicate r (replicate c 0)\<rparr>"

definition np_arange :: "nat \<Rightarrow> nat list" where
  "np_arange n = [0..<n]"

definition eye :: "nat \<Rightarrow> matrix" where
  "eye n = mk_matrix n n (\<lambda>i j. if i = j then 1 else 0)"

text \<open>
  \<open>m[i, j] = v\<close>, and the assignment \<open>m[is, js] = vs\<close> through two index arrays of the
  same length, which stores \<open>vs[k]\<close> at \<open>(is[k], js[k])\<close> for each \<open>k\<close> in turn.  The
  constructor only uses indices inside the \<open>9 \<times> 9\<close> shape, where numpy does not raise.
\<close>

definition set_entry :: "matrix \<Rightarrow> nat \<Rightarrow> nat \<Rightarrow> real \<Rightarrow> matrix" where
  "set_entry m i j v = m\<lparr>rows := (rows m)[i := (rows m ! i)[j := v]]\<rparr>"

fun index_put :: "matrix \<Rightarrow> nat list \<Rightarrow> nat list \<Rightarrow> real list \<Rightarrow> matrix" where
  "index_put m (i # is) (j # js) (v # vs) = index_put (set_entry m i j v) is js vs"
| "index_put m _ _ _ = m"

text \<open>\<open>m.T\<close> of a two-dimensional array.\<close>

definition transpose_m :: "matrix \<Rightarrow> matrix" where
  "transpose_m m = mk_matrix (ncols m) (nrows m) (\<lambda>i j. entry m j i)"

text \<open>
  \<open>a @ b\<close>: for two two-dimensional arrays (\<open>matmul\<close>) and for a two-dimensional and a
  one-dimensional one (\<open>matvec\<close>).  numpy raises ValueError when the inner dimensions differ.
\<close>

definition matmul :: "matrix \<Rightarrow> matrix \<Rightarrow> error + matrix" where
  "matmul a b =
     (if ncols a \<noteq> nrows b then Inl ValueError
      else Inr (mk_matrix (nrows a) (ncols b)
                  (\<lambda>i j. \<Sum>k\<leftarrow>[0..<ncols a]. entry a i k * entry b k j)))"

definition matvec :: "matrix \<Rightarrow> real list \<Rightarrow> error + real list" where
  "matvec a v =
     (if ncols a \<noteq> length v then Inl ValueError
      else Inr (map (\<lambda>i. \<Sum>k\<leftarrow>[0..<ncols a]. entry a i k * v ! k) [0..<nrows a]))"

section \<open>The simulator\<close>

text \<open>
  Lines 26 to 30 of \<open>__init__\<close>: the matrix \<open>F\<close>.  \<open>i[1:]\<close> is \<open>drop 1 i\<close>, \<open>i[:-1]\<close> and
  \<open>i[:-2]\<close> are \<open>take (length i - 1) i\<close> and \<open>take (length i - 2) i\<close>; a scalar on the
  right of an indexed assignment is broadcast to the length of the index arrays.
\<close>

definition F_matrix :: matrix where
  "F_matrix =
     (let F0 = np_zeros 9 9;
          i = np_arange 9;
          F1 = index_put F0 i i (map (\<lambda>k. 1 + sqrt (real k / 9)) i);
          F2 = index_put F1 (drop 1 i) (take (length i - 1) i) (replicate (length i - 1) (- 2));
          F3 = index_put F2 (drop 2 i) (take (length i - 2) i) (replicate (length i - 2) 1)
      in F3)"

text \<open>\<open>scipy.special.expit\<close>, the logistic function.\<close>

definition expit :: "real \<Rightarrow> real" where
  "expit x = 1 / (1 + exp (- x))"

text \<open>\<open>np.append(x, ys)\<close> flattens both arguments and joins them.\<close>

definition np_append :: "real list \<Rightarrow> real list \<Rightarrow> real list" where
  "np_append xs ys = xs @ ys"

text \<open>
  \<open>np.expand_dims(z, axis=-1)\<close> turns a vector of length \<open>n\<close> into an \<open>n \<times> 1\<close> array;
  \<open>np.c_[a, b]\<close> joins two two-dimensional arrays along the last axis and raises ValueError
  when their row counts differ.  The integer draws become floats there.
\<close>

definition expand_dims :: "real list \<Rightarrow> matrix" where
  "expand_dims z = \<lparr>ncols = 1, rows = map (\<lambda>x. [x]) z\<rparr>"

definition np_c :: "matrix \<Rightarrow> matrix \<Rightarrow> error + matrix" where
  "np_c a b =
     (if nrows a \<noteq> nrows b then Inl ValueError
      else Inr \<lparr>ncols = ncols a + ncols b, rows = map2 (@) (rows a) (rows b)\<rparr>)"

text \<open>
  The randomness source is a \<open>numpy.random.Generator\<close>, which is not part of the
  repository.  Its state is a value of type \<open>'g\<close>; each sampling method takes the state and
  returns the draw with the advanced state.  The methods the simulator calls are the fields
  of the record: \<open>normal(loc, scale)\<close> for one draw, \<open>normal(loc, scale, size=(r, c))\<close> for
  an array of draws, \<open>multivariate_normal(mean, cov)\<close> and \<open>binomial(n, p)\<close> with an array
  of probabilities.
\<close>

record 'g generator =
  rng_normal :: "real \<Rightarrow> real \<Rightarrow> 'g \<Rightarrow> real \<times> 'g"
  rng_normal_size :: "real \<Rightarrow> real \<Rightarrow> int \<times> int \<Rightarrow> 'g \<Rightarrow> (error + matrix) \<times> 'g"
  rng_multivariate_normal :: "real list \<Rightarrow> matrix \<Rightarrow> 'g \<Rightarrow> (error + real list) \<times> 'g"
  rng_binomial :: "nat \<Rightarrow> real list \<Rightarrow> 'g \<Rightarrow> (error + nat list) \<times> 'g"

text \<open>
  What numpy documents about the shapes and ranges of the draws: an array of normal draws
  has the requested shape when no dimension is negative; a multivariate normal draw has the
  length of the mean when the covariance is square of that size; binomial draws for
  probabilities in \<open>[0, 1]\<close> have the shape of the probabilities and lie in \<open>0..n\<close>.
\<close>

definition generator_ok :: "'g generator \<Rightarrow> bool" where
  "generator_ok gen \<longleftrightarrow>
     (\<forall>loc scale r c g. 0 \<le> r \<and> 0 \<le> c \<longrightarrow>
        (\<exists>V. fst (rng_normal_size gen loc scale (r, c) g) = Inr V \<and>
             wf_matrix V \<and> nrows V = nat r \<and> ncols V = nat c)) \<and>
     (\<forall>mean cv g. wf_matrix cv \<and> nrows cv = length mean \<and> ncols cv = length mean \<longrightarrow>
        (\<exists>f. fst (rng_multivariate_normal gen mean cv g) = Inr f \<and> length f = length mean)) \<and>
     (\<forall>n ps g. (\<forall>p \<in> set ps. 0 \<le> p \<and> p \<le> 1) \<longrightarrow>
        (\<exists>z. fst (rng_binomial gen n ps g) = Inr z \<and> length z = length ps \<and>
             (\<forall>x \<in> set z. x \<le> n)))"

text \<open>
  \<open>np.linalg.inv\<close> is not part of the repository either and is a parameter of the
  constructor's model.  On a matrix \<open>a\<close> it either returns an array \<open>s\<close> of the same shape
  with \<open>a @ s\<close> the identity, or raises LinAlgError, and it raises only when no such \<open>s\<close>
  exists.
\<close>

definition is_right_inverse :: "matrix \<Rightarrow> matrix \<Rightarrow> bool" where
  "is_right_inverse a s \<longleftrightarrow>
     wf_matrix s \<and> nrows s = nrows a \<and> ncols s = ncols a \<and> matmul a s = Inr (eye (nrows a))"

definition inv_ok_at :: "(matrix \<Rightarrow> error + matrix) \<Rightarrow> matrix \<Rightarrow> bool" where
  "inv_ok_at linalg_inv a \<longleftrightarrow>
     (case linalg_inv a of
        Inr s \<Rightarrow> is_right_inverse a s
      | Inl e \<Rightarrow> e = LinAlgError \<and> \<not> (\<exists>s. is_right_inverse a s))"

text \<open>
  The constructor calls \<open>np.linalg.inv\<close> on \<open>F.T @ F\<close> only; \<open>linalg_inv_ok\<close> asks for
  the contract on that one matrix.
\<close>

definition linalg_inv_ok :: "(matrix \<Rightarrow> error + matrix) \<Rightarrow> bool" where
  "linalg_inv_ok linalg_inv \<longleftrightarrow>
     (\<forall>a. matmul (transpose_m F_matrix) F_matrix = Inr a \<longrightarrow> inv_ok_at linalg_inv a)"

text \<open>
  The instance: its fields \<open>T\<close>, \<open>rng\<close> (the state of the generator it holds) and \<open>cov\<close>.
\<close>

record 'g simulator =
  T :: int
  rng :: 'g
  cov :: matrix

text \<open>
  \<open>__init__(self, T, rng)\<close>.  With \<open>rng\<close> None the instance takes the generator that
  \<open>np.random.default_rng()\<close> returns, seeded from the operating system: the argument
  \<open>fresh\<close>.  Nothing checks \<open>T\<close>.
\<close>

definition init ::
  "(matrix \<Rightarrow> error + matrix) \<Rightarrow> int \<Rightarrow> 'g option \<Rightarrow> 'g \<Rightarrow> error + 'g simulator" where
  "init linalg_inv T0 rng0 fresh =
     (case matmul (transpose_m F_matrix) F_matrix of
        Inl e \<Rightarrow> Inl e
      | Inr a \<Rightarrow>
          (case linalg_inv a of
             Inl e \<Rightarrow> Inl e
           | Inr s \<Rightarrow>
               Inr \<lparr>T = T0, rng = (case rng0 of None \<Rightarrow> fresh | Some g \<Rightarrow> g), cov = s\<rparr>))"

text \<open>
  \<open>prior(self)\<close>.  The call advances the generator the instance holds, so the model
  returns the instance with the new generator state next to the result.
\<close>

definition prior :: "'g generator \<Rightarrow> 'g simulator \<Rightarrow> (error + real list) \<times> 'g simulator" where
  "prior gen self =
     (case rng_normal gen 0 2 (rng self) of
        (beta, g1) \<Rightarrow>
          (case rng_multivariate_normal gen (replicate 9 0) (cov self) g1 of
             (Inl e, g2) \<Rightarrow> (Inl e, self\<lparr>rng := g2\<rparr>)
           | (Inr f, g2) \<Rightarrow> (Inr (np_append [beta] f), self\<lparr>rng := g2\<rparr>)))"

text \<open>
  \<open>observation_model(self, params)\<close> on a one-dimensional \<open>params\<close>.  \<open>params[0]\<close>
  raises IndexError on the empty array; \<open>params[1:]\<close> never raises.  The success
  probabilities \<open>expit(V.T @ f + beta)\<close> are \<open>success_prob\<close>.
\<close>

definition success_prob :: "matrix \<Rightarrow> real list \<Rightarrow> real \<Rightarrow> error + real list" where
  "success_prob V f beta =
     (case matvec (transpose_m V) f of
        Inl e \<Rightarrow> Inl e
      | Inr eta \<Rightarrow> Inr (map expit (map (\<lambda>x. x + beta) eta)))"

definition observation_model ::
  "'g generator \<Rightarrow> 'g simulator \<Rightarrow> real list \<Rightarrow> (error + matrix) \<times> 'g simulator" where
  "observation_model gen self params =
     (case params of
        [] \<Rightarrow> (Inl IndexError, self)
      | beta # f \<Rightarrow>
          (case rng_normal_size gen 0 1 (9, T self) (rng self) of
             (Inl e, g1) \<Rightarrow> (Inl e, self\<lparr>rng := g1\<rparr>)
           | (Inr V, g1) \<Rightarrow>
               (case success_prob V f beta of
                  Inl e \<Rightarrow> (Inl e, self\<lparr>rng := g1\<rparr>)
                | Inr p \<Rightarrow>
                    (case rng_binomial gen 1 p g1 of
                       (Inl e, g2) \<Rightarrow> (Inl e, self\<lparr>rng := g2\<rparr>)
                     | (Inr z, g2) \<Rightarrow>
                         (np_c (expand_dims (map real z)) (transpose_m V),
                          self\<lparr>rng := g2\<rparr>)))))"


section \<open>A deterministic generator for concrete runs\<close>

text \<open>
  A generator whose state counts the draws made so far and whose draws are read off the
  counter: normal draws cycle through \<open>loc - scale\<close>, \<open>loc\<close>, \<open>loc + scale\<close>, a
  multivariate normal draw is the mean, a binomial draw is \<open>n\<close> when the probability is at
  least one half and \<open>0\<close> otherwise.
\<close>

definition cyc :: "nat \<Rightarrow> real" where
  "cyc k = real (k mod 3) - 1"

definition counter_gen :: "nat generator" where
  "counter_gen =
     \<lparr>rng_normal = (\<lambda>loc scale g. (loc + scale * cyc g, g + 1)),
      rng_normal_size = (\<lambda>loc scale (r, c) g.
        if r < 0 \<or> c < 0 then (Inl ValueError, g)
        else (Inr (mk_matrix (nat r) (nat c) (\<lambda>i j. loc + scale * cyc (g + i * nat c + j))),
              g + nat r * nat c)),
      rng_multivariate_normal = (\<lambda>mean cv g.
        if wf_matrix cv \<and> nrows cv = length mean \<and> ncols cv = length mean
        then (Inr mean, g + length mean) else (Inl ValueError, g)),
      rng_binomial = (\<lambda>n ps g.
        if list_all (\<lambda>p. 0 \<le> p \<and> p \<le> 1) ps
        then (Inr (map (\<lambda>p. if 1 / 2 \<le> p then n else 0) ps), g + length ps)
        else (Inl ValueError, g))\<rparr>"

section \<open>Linear algebra on index functions\<close>

text \<open>
  A matrix is symmetric when it equals its transpose.  It is positive definite when the
  quadratic form \<open>x\<^sup>T m x\<close> is positive at every vector \<open>x\<close> other than zero; a
  number is an eigenvalue when some vector other than zero is scaled by it.  (A symmetric
  real matrix has real eigenvalues only, so real eigenpairs are all there are.)
\<close>

definition symmetric :: "matrix \<Rightarrow> bool" where
  "symmetric m \<longleftrightarrow> transpose_m m = m"

definition quad_form :: "matrix \<Rightarrow> real list \<Rightarrow> real" where
  "quad_form m x = (\<Sum>i\<leftarrow>[0..<nrows m]. \<Sum>j\<leftarrow>[0..<ncols m]. x ! i * entry m i j * x ! j)"

definition nonzero_vec :: "real list \<Rightarrow> bool" where
  "nonzero_vec x \<longleftrightarrow> list_ex (\<lambda>v. v \<noteq> 0) x"

definition positive_definite :: "matrix \<Rightarrow> bool" where
  "positive_definite m \<longleftrightarrow>
     (\<forall>x. length x = nrows m \<and> nonzero_vec x \<longrightarrow> 0 < quad_form m x)"

definition eigenvalue :: "matrix \<Rightarrow> real \<Rightarrow> bool" where
  "eigenvalue m lam \<longleftrightarrow>
     (\<exists>v. length v = ncols m \<and> nonzero_vec v \<and> matvec m v = Inr (map (\<lambda>x. lam * x) v))"

text \<open>
  Triangular shapes: upper triangular means zero at every entry below the diagonal (row
  index greater than column index), lower triangular zero at every entry above it.
\<close>

definition upper_triangular :: "matrix \<Rightarrow> bool" where
  "upper_triangular m \<longleftrightarrow> (\<forall>i<nrows m. \<forall>j<ncols m. j < i \<longrightarrow> entry m i j = 0)"

definition lower_triangular :: "matrix \<Rightarrow> bool" where
  "lower_triangular m \<longleftrightarrow> (\<forall>i<nrows m. \<forall>j<ncols m. i < j \<longrightarrow> entry m i j = 0)"

definition positive_diagonal :: "matrix \<Rightarrow> bool" where
  "positive_diagonal m \<longleftrightarrow> (\<forall>i<min (nrows m) (ncols m). 0 < entry m i i)"

text \<open>
  The same for an \<open>n \<times> n\<close> index function, with a diagonal free of zeros.
\<close>

definition lower_tri :: "nat \<Rightarrow> (nat \<Rightarrow> nat \<Rightarrow> real) \<Rightarrow> bool" where
  "lower_tri n L \<longleftrightarrow> (\<forall>i<n. \<forall>j<n. i < j \<longrightarrow> L i j = 0) \<and> (\<forall>i<n. L i i \<noteq> 0)"

text \<open>
  The inverse of a lower triangular matrix by forward substitution, row after row, and the
  same on the matrix read from its last row and column backwards, which inverts from the
  left.  Both serve to exhibit the inverse of \<open>F\<^sup>T F\<close>; the simulator does not run them.
\<close>

fun tri_inv :: "(nat \<Rightarrow> nat \<Rightarrow> real) \<Rightarrow> nat \<Rightarrow> nat \<Rightarrow> real" where
  "tri_inv L i j = ((if i = j then 1 else 0) - (\<Sum>k<i. L i k * tri_inv L k j)) / L i i"

declare tri_inv.simps [simp del]

definition tri_linv :: "nat \<Rightarrow> (nat \<Rightarrow> nat \<Rightarrow> real) \<Rightarrow> nat \<Rightarrow> nat \<Rightarrow> real" where
  "tri_linv n L i j = tri_inv (\<lambda>a b. L (n - 1 - b) (n - 1 - a)) (n - 1 - j) (n - 1 - i)"

text \<open>
  The entries of \<open>F\<^sup>T F\<close>, and an inverse of it: the product of the inverse of \<open>F\<close> from
  the right with the transpose of its inverse from the left.  \<open>exact_inv\<close> returns that
  inverse and stands in for \<open>np.linalg.inv\<close> in concrete runs.
\<close>

definition FtF :: matrix where
  "FtF = mk_matrix 9 9 (\<lambda>i j. \<Sum>k<9. entry F_matrix k i * entry F_matrix k j)"

definition Sigma_exact :: matrix where
  "Sigma_exact =
     mk_matrix 9 9 (\<lambda>i j. \<Sum>m<9. tri_inv (entry F_matrix) i m * tri_linv 9 (entry F_matrix) j m)"

definition exact_inv :: "matrix \<Rightarrow> error + matrix" where
  "exact_inv a = Inr Sigma_exact"

section \<open>Basic facts about arrays\<close>

lemma upt_9: "[0..<9] = [0, 1, 2, 3, 4, 5, 6, 7, 8]"
  by (simp add: upt_rec)

lemma F_matrix_rows:
  "F_matrix = \<lparr>ncols = 9, rows =
     [[1 + sqrt (0 / 9), 0, 0, 0, 0, 0, 0, 0, 0],
      [- 2, 1 + sqrt (1 / 9), 0, 0, 0, 0, 0, 0, 0],
      [1, - 2, 1 + sqrt (2 / 9), 0, 0, 0, 0, 0, 0],
      [0, 1, - 2, 1 + sqrt (3 / 9), 0, 0, 0, 0, 0],
      [0, 0, 1, - 2, 1 + sqrt (4 / 9), 0, 0, 0, 0],
      [0, 0, 0, 1, - 2, 1 + sqrt (5 / 9), 0, 0, 0],
      [0, 0, 0, 0, 1, - 2, 1 + sqrt (6 / 9), 0, 0],
      [0, 0, 0, 0, 0, 1, - 2, 1 + sqrt (7 / 9), 0],
      [0, 0, 0, 0, 0, 0, 1, - 2, 1 + sqrt (8 / 9)]]\<rparr>"
  unfolding F_matrix_def np_zeros_def np_arange_def Let_def upt_9
  by (simp add: set_entry_def eval_nat_numeral)

lemma nrows_mk_matrix [simp]: "nrows (mk_matrix r c f) = r"
  by (simp add: nrows_def mk_matrix_def)

lemma ncols_mk_matrix [simp]: "ncols (mk_matrix r c f) = c"
  by (simp add: mk_matrix_def)

lemma wf_mk_matrix [simp]: "wf_matrix (mk_matrix r c f)"
  by (simp add: wf_matrix_def mk_matrix_def list_all_iff)

lemma entry_mk_matrix [simp]: "i < r \<Longrightarrow> j < c \<Longrightarrow> entry (mk_matrix r c f) i j = f i j"
  by (simp add: entry_def mk_matrix_def)

lemma sum_list_upt: "(\<Sum>k\<leftarrow>[0..<n]. f k) = (\<Sum>k<n. f k)"
  by (simp add: interv_sum_list_conv_sum_set_nat atLeast0LessThan)

lemma matrix_eqI:
  assumes "wf_matrix a" "wf_matrix b" "nrows a = nrows b" "ncols a = ncols b"
    and "\<And>i j. i < nrows a \<Longrightarrow> j < ncols a \<Longrightarrow> entry a i j = entry b i j"
  shows "a = b"
proof -
  have "rows a = rows b"
  proof (rule nth_equalityI)
    show "length (rows a) = length (rows b)" using assms(3) by (simp add: nrows_def)
  next
    fix i assume i: "i < length (rows a)"
    then have la: "length (rows a ! i) = ncols a"
      using assms(1) by (simp add: wf_matrix_def list_all_length)
    from i assms(3) have "i < length (rows b)" by (simp add: nrows_def)
    then have lb: "length (rows b ! i) = ncols b"
      using assms(2) by (simp add: wf_matrix_def list_all_length)
    show "rows a ! i = rows b ! i"
    proof (rule nth_equalityI)
      show "length (rows a ! i) = length (rows b ! i)" using la lb assms(4) by simp
    next
      fix j assume "j < length (rows a ! i)"
      then show "rows a ! i ! j = rows b ! i ! j"
        using assms(5)[of i j] i la by (simp add: entry_def nrows_def)
    qed
  qed
  then show ?thesis using assms(4) by simp
qed

lemma lt9_cases: "i < 9 \<Longrightarrow> i \<in> {0, 1, 2, 3, 4, 5, 6, 7, 8::nat}"
  by auto

lemma F_entry:
  assumes "i < 9" "j < 9"
  shows "entry F_matrix i j =
     (if j = i then 1 + sqrt (real i / 9) else if j + 1 = i then - 2
      else if j + 2 = i then 1 else 0)"
  using lt9_cases[OF assms(1)] lt9_cases[OF assms(2)]
  by (auto simp: F_matrix_rows entry_def)

lemma F_shape: "nrows F_matrix = 9" "ncols F_matrix = 9" "wf_matrix F_matrix"
  by (simp_all add: F_matrix_rows nrows_def wf_matrix_def)


section \<open>Triangular matrices and Gram matrices\<close>

lemma sum_split_at:
  fixes f :: "nat \<Rightarrow> real"
  assumes "i < n"
  shows "(\<Sum>k<n. f k) = (\<Sum>k<i. f k) + f i + (\<Sum>k\<in>{Suc i..<n}. f k)"
proof -
  have "{..<n} = {..<i} \<union> ({i} \<union> {Suc i..<n})" using assms by auto
  moreover have "{..<i} \<inter> ({i} \<union> {Suc i..<n}) = {}" by auto
  ultimately have "(\<Sum>k<n. f k) = (\<Sum>k<i. f k) + (\<Sum>k\<in>{i} \<union> {Suc i..<n}. f k)"
    by (simp add: sum.union_disjoint)
  also have "(\<Sum>k\<in>{i} \<union> {Suc i..<n}. f k) = f i + (\<Sum>k\<in>{Suc i..<n}. f k)"
    by (subst sum.union_disjoint) auto
  finally show ?thesis by simp
qed

lemma tri_inv_right:
  assumes L: "lower_tri n L" and i: "i < n" and j: "j < n"
  shows "(\<Sum>k<n. L i k * tri_inv L k j) = (if i = j then 1 else 0)"
proof -
  have z: "(\<Sum>k\<in>{Suc i..<n}. L i k * tri_inv L k j) = 0"
    using L i by (intro sum.neutral) (auto simp: lower_tri_def)
  have d: "L i i \<noteq> 0" using L i by (simp add: lower_tri_def)
  have "L i i * tri_inv L i j = (if i = j then 1 else 0) - (\<Sum>k<i. L i k * tri_inv L k j)"
    by (subst tri_inv.simps) (use d in simp)
  then show ?thesis
    unfolding sum_split_at[OF i] z by simp
qed

lemma tri_linv_left:
  assumes L: "lower_tri n L" and i: "i < n" and j: "j < n"
  shows "(\<Sum>k<n. tri_linv n L i k * L k j) = (if i = j then 1 else 0)"
proof -
  define L' where "L' = (\<lambda>a b. L (n - 1 - b) (n - 1 - a))"
  have L': "lower_tri n L'"
    using L unfolding lower_tri_def L'_def by auto
  have "(\<Sum>k<n. L' (n - 1 - j) k * tri_inv L' k (n - 1 - i)) = (if n - 1 - j = n - 1 - i then 1 else 0)"
    using tri_inv_right[OF L', of "n - 1 - j" "n - 1 - i"] i j by simp
  moreover have "(n - 1 - j = n - 1 - i) = (i = j)" using i j by auto
  moreover have "(\<Sum>k<n. L' (n - 1 - j) k * tri_inv L' k (n - 1 - i))
      = (\<Sum>k<n. L' (n - 1 - j) (n - Suc k) * tri_inv L' (n - Suc k) (n - 1 - i))"
    by (rule sum.nat_diff_reindex[symmetric])
  moreover have "\<dots> = (\<Sum>k<n. tri_linv n L i k * L k j)"
    using j by (intro sum.cong) (auto simp: L'_def tri_linv_def)
  ultimately show ?thesis by simp
qed

lemma sum_delta_r:
  fixes f :: "nat \<Rightarrow> real"
  assumes "x < n"
  shows "(\<Sum>m<n. f m * (if x = m then 1 else 0)) = f x"
proof -
  have "(\<Sum>m<n. f m * (if x = m then 1 else 0)) = (\<Sum>m<n. if x = m then f m else 0)"
    by (intro sum.cong) auto
  then show ?thesis using assms by (simp add: sum.delta')
qed


lemma gram_inverse:
  fixes F G H :: "nat \<Rightarrow> nat \<Rightarrow> real"
  assumes FG: "\<And>i j. i < n \<Longrightarrow> j < n \<Longrightarrow> (\<Sum>k<n. F i k * G k j) = (if i = j then 1 else 0)"
      and HF: "\<And>i j. i < n \<Longrightarrow> j < n \<Longrightarrow> (\<Sum>k<n. H i k * F k j) = (if i = j then 1 else 0)"
      and i: "i < n" and j: "j < n"
  shows "(\<Sum>k<n. (\<Sum>l<n. F l i * F l k) * (\<Sum>m<n. G k m * H j m)) = (if i = j then 1 else 0)"
proof -
  have "(\<Sum>k<n. (\<Sum>l<n. F l i * F l k) * (\<Sum>m<n. G k m * H j m))
      = (\<Sum>k<n. \<Sum>l<n. \<Sum>m<n. F l i * H j m * (F l k * G k m))"
    by (simp add: sum_product mult_ac)
  also have "\<dots> = (\<Sum>l<n. \<Sum>k<n. \<Sum>m<n. F l i * H j m * (F l k * G k m))"
    by (rule sum.swap)
  also have "\<dots> = (\<Sum>l<n. \<Sum>m<n. \<Sum>k<n. F l i * H j m * (F l k * G k m))"
    by (intro sum.cong refl sum.swap)
  also have "\<dots> = (\<Sum>l<n. \<Sum>m<n. F l i * H j m * (\<Sum>k<n. F l k * G k m))"
    by (simp add: sum_distrib_left)
  also have "\<dots> = (\<Sum>l<n. \<Sum>m<n. F l i * H j m * (if l = m then 1 else 0))"
    by (intro sum.cong refl) (simp add: FG)
  also have "\<dots> = (\<Sum>l<n. F l i * H j l)"
    by (intro sum.cong refl) (simp add: sum_delta_r)
  also have "\<dots> = (\<Sum>l<n. H j l * F l i)"
    by (simp add: mult.commute)
  also have "\<dots> = (if i = j then 1 else 0)"
    using HF[OF j i] by auto
  finally show ?thesis .
qed


lemma sum_delta_l:
  fixes f :: "nat \<Rightarrow> real"
  assumes "x < n"
  shows "(\<Sum>m<n. (if x = m then 1 else 0) * f m) = f x"
  using sum_delta_r[OF assms, of f] by (simp add: mult.commute)

lemma inverse_symmetric:
  fixes a s :: "nat \<Rightarrow> nat \<Rightarrow> real"
  assumes asym: "\<And>i j. i < n \<Longrightarrow> j < n \<Longrightarrow> a i j = a j i"
      and AS: "\<And>i j. i < n \<Longrightarrow> j < n \<Longrightarrow> (\<Sum>k<n. a i k * s k j) = (if i = j then 1 else 0)"
      and i: "i < n" and j: "j < n"
  shows "s i j = s j i"
proof -
  have "s j i = (\<Sum>k<n. s k i * (if j = k then 1 else 0))"
    by (simp add: sum_delta_r[OF j])
  also have "\<dots> = (\<Sum>k<n. s k i * (\<Sum>l<n. a k l * s l j))"
    by (intro sum.cong refl) (auto simp: AS j)
  also have "\<dots> = (\<Sum>k<n. \<Sum>l<n. (a l k * s k i) * s l j)"
    by (intro sum.cong refl) (simp add: sum_distrib_left asym mult_ac)
  also have "\<dots> = (\<Sum>l<n. \<Sum>k<n. (a l k * s k i) * s l j)"
    by (rule sum.swap)
  also have "\<dots> = (\<Sum>l<n. (\<Sum>k<n. a l k * s k i) * s l j)"
    by (simp add: sum_distrib_right)
  also have "\<dots> = (\<Sum>l<n. (if i = l then 1 else 0) * s l j)"
    by (intro sum.cong refl) (auto simp: AS i)
  also have "\<dots> = s i j"
    by (rule sum_delta_l[OF i])
  finally show ?thesis by simp
qed

lemma lower_tri_kernel:
  fixes F :: "nat \<Rightarrow> nat \<Rightarrow> real"
  assumes L: "lower_tri n F"
      and w: "\<And>l. l < n \<Longrightarrow> (\<Sum>i<n. F l i * y i) = 0"
      and k: "k < n"
  shows "y k = 0"
  using k
proof (induction k rule: less_induct)
  case (less k)
  have z: "(\<Sum>i\<in>{Suc k..<n}. F k i * y i) = 0"
    using L less.prems by (intro sum.neutral) (auto simp: lower_tri_def)
  have z': "(\<Sum>i<k. F k i * y i) = 0"
    using less by (intro sum.neutral) auto
  have "F k k * y k = 0"
    using w[OF less.prems] unfolding sum_split_at[OF less.prems] z z' by simp
  moreover have "F k k \<noteq> 0" using L less.prems by (simp add: lower_tri_def)
  ultimately show ?case by simp
qed

lemma gram_inverse_pd:
  fixes F s :: "nat \<Rightarrow> nat \<Rightarrow> real" and x :: "nat \<Rightarrow> real"
  assumes L: "lower_tri n F"
      and AS: "\<And>i j. i < n \<Longrightarrow> j < n \<Longrightarrow>
                 (\<Sum>k<n. (\<Sum>l<n. F l i * F l k) * s k j) = (if i = j then 1 else 0)"
      and x: "\<exists>i<n. x i \<noteq> 0"
  shows "0 < (\<Sum>i<n. \<Sum>j<n. x i * s i j * x j)"
proof -
  define y where "y = (\<lambda>i. \<Sum>j<n. s i j * x j)"
  define w where "w = (\<lambda>l. \<Sum>i<n. F l i * y i)"
  have Ay: "(\<Sum>k<n. (\<Sum>l<n. F l i * F l k) * y k) = x i" if i: "i < n" for i
  proof -
    have "(\<Sum>k<n. (\<Sum>l<n. F l i * F l k) * y k)
        = (\<Sum>k<n. \<Sum>j<n. ((\<Sum>l<n. F l i * F l k) * s k j) * x j)"
      unfolding y_def by (simp add: sum_distrib_left mult.assoc)
    also have "\<dots> = (\<Sum>j<n. \<Sum>k<n. ((\<Sum>l<n. F l i * F l k) * s k j) * x j)"
      by (rule sum.swap)
    also have "\<dots> = (\<Sum>j<n. (\<Sum>k<n. (\<Sum>l<n. F l i * F l k) * s k j) * x j)"
      by (simp add: sum_distrib_right)
    also have "\<dots> = (\<Sum>j<n. (if i = j then 1 else 0) * x j)"
      by (intro sum.cong refl) (auto simp: AS i)
    also have "\<dots> = x i" by (rule sum_delta_l[OF i])
    finally show ?thesis .
  qed
  have "(\<Sum>i<n. \<Sum>j<n. x i * s i j * x j) = (\<Sum>i<n. x i * y i)"
    unfolding y_def by (simp add: sum_distrib_left mult.assoc)
  also have "\<dots> = (\<Sum>i<n. (\<Sum>k<n. (\<Sum>l<n. F l i * F l k) * y k) * y i)"
    by (intro sum.cong refl) (simp add: Ay)
  also have "\<dots> = (\<Sum>i<n. \<Sum>k<n. \<Sum>l<n. (F l i * y i) * (F l k * y k))"
    by (simp add: sum_distrib_right sum_distrib_left mult_ac)
  also have "\<dots> = (\<Sum>i<n. \<Sum>l<n. \<Sum>k<n. (F l i * y i) * (F l k * y k))"
    by (intro sum.cong refl sum.swap)
  also have "\<dots> = (\<Sum>l<n. \<Sum>i<n. \<Sum>k<n. (F l i * y i) * (F l k * y k))"
    by (rule sum.swap)
  also have "\<dots> = (\<Sum>l<n. w l * w l)"
    unfolding w_def by (simp add: sum_product)
  finally have q: "(\<Sum>i<n. \<Sum>j<n. x i * s i j * x j) = (\<Sum>l<n. w l * w l)" .
  have nonneg: "0 \<le> (\<Sum>l<n. w l * w l)" by (intro sum_nonneg) simp
  have "(\<Sum>l<n. w l * w l) \<noteq> 0"
  proof
    assume "(\<Sum>l<n. w l * w l) = 0"
    then have "\<forall>l\<in>{..<n}. w l * w l = 0"
      by (subst (asm) sum_nonneg_eq_0_iff) auto
    then have w0: "\<And>l. l < n \<Longrightarrow> (\<Sum>i<n. F l i * y i) = 0"
      by (auto simp: w_def)
    have y0: "\<And>k. k < n \<Longrightarrow> y k = 0"
      by (rule lower_tri_kernel[OF L w0])
    have "\<And>i. i < n \<Longrightarrow> x i = 0"
      using Ay y0 by (metis (no_types, lifting) lessThan_iff mult_zero_right sum.neutral)
    with x show False by auto
  qed
  with nonneg q show ?thesis by simp
qed


section \<open>The matrix F and the inverse of its Gram matrix\<close>

lemma mk_matrix_cong:
  "(\<And>i j. i < r \<Longrightarrow> j < c \<Longrightarrow> f i j = g i j) \<Longrightarrow> mk_matrix r c f = mk_matrix r c g"
  by (simp add: mk_matrix_def)

lemma mk_matrix_eqD:
  assumes "mk_matrix r c f = mk_matrix r c g" "i < r" "j < c"
  shows "f i j = g i j"
proof -
  have "entry (mk_matrix r c f) i j = entry (mk_matrix r c g) i j" using assms(1) by simp
  then show ?thesis using assms(2,3) by simp
qed

lemma entry_transpose [simp]:
  "i < ncols m \<Longrightarrow> j < nrows m \<Longrightarrow> entry (transpose_m m) i j = entry m j i"
  by (simp add: transpose_m_def)

lemma shape_transpose [simp]:
  "nrows (transpose_m m) = ncols m" "ncols (transpose_m m) = nrows m"
  "wf_matrix (transpose_m m)"
  by (simp_all add: transpose_m_def)

lemma matmul_FtF: "matmul (transpose_m F_matrix) F_matrix = Inr FtF"
  unfolding matmul_def FtF_def
  by (auto simp: F_shape sum_list_upt intro!: mk_matrix_cong sum.cong)

lemma FtF_shape [simp]: "nrows FtF = 9" "ncols FtF = 9" "wf_matrix FtF"
  by (simp_all add: FtF_def)

lemma FtF_entry:
  "i < 9 \<Longrightarrow> j < 9 \<Longrightarrow> entry FtF i j = (\<Sum>k<9. entry F_matrix k i * entry F_matrix k j)"
  by (simp add: FtF_def)

lemma F_diag_pos: "i < 9 \<Longrightarrow> 0 < entry F_matrix i i"
  by (simp add: F_entry add_pos_nonneg)

lemma F_lower_tri: "lower_tri 9 (entry F_matrix)"
proof -
  have "\<And>i. i < 9 \<Longrightarrow> entry F_matrix i i \<noteq> 0"
    using F_diag_pos by fastforce
  moreover have "\<And>i j. i < 9 \<Longrightarrow> j < 9 \<Longrightarrow> i < j \<Longrightarrow> entry F_matrix i j = 0"
    by (simp add: F_entry)
  ultimately show ?thesis unfolding lower_tri_def by blast
qed

lemma right_inverse_entries:
  assumes "is_right_inverse FtF s" "i < 9" "j < 9"
  shows "(\<Sum>k<9. entry FtF i k * entry s k j) = (if i = j then 1 else 0)"
proof -
  from assms(1) have sh: "nrows s = 9" "ncols s = 9"
    by (simp_all add: is_right_inverse_def)
  from assms(1) have "matmul FtF s = Inr (eye 9)"
    by (simp add: is_right_inverse_def)
  then have
    "mk_matrix 9 9 (\<lambda>i j. \<Sum>k\<leftarrow>[0..<9]. entry FtF i k * entry s k j)
       = mk_matrix 9 9 (\<lambda>i j. if i = j then 1 else 0)"
    using sh by (simp add: matmul_def eye_def)
  from mk_matrix_eqD[OF this assms(2,3)] show ?thesis by (simp add: sum_list_upt)
qed

lemma right_inverseI:
  assumes "wf_matrix s" "nrows s = 9" "ncols s = 9"
    and "\<And>i j. i < 9 \<Longrightarrow> j < 9 \<Longrightarrow> (\<Sum>k<9. entry FtF i k * entry s k j) = (if i = j then 1 else 0)"
  shows "is_right_inverse FtF s"
  unfolding is_right_inverse_def matmul_def eye_def
  using assms by (auto simp: sum_list_upt intro!: mk_matrix_cong)

lemma Sigma_exact_right_inverse: "is_right_inverse FtF Sigma_exact"
proof (rule right_inverseI)
  fix i j :: nat assume i: "i < 9" and j: "j < 9"
  have "(\<Sum>k<9. (\<Sum>l<9. entry F_matrix l i * entry F_matrix l k) *
          (\<Sum>m<9. tri_inv (entry F_matrix) k m * tri_linv 9 (entry F_matrix) j m))
        = (if i = j then 1 else 0)"
    by (rule gram_inverse[OF tri_inv_right[OF F_lower_tri] tri_linv_left[OF F_lower_tri] i j])
  moreover have "(\<Sum>k<9. entry FtF i k * entry Sigma_exact k j)
     = (\<Sum>k<9. (\<Sum>l<9. entry F_matrix l i * entry F_matrix l k) *
          (\<Sum>m<9. tri_inv (entry F_matrix) k m * tri_linv 9 (entry F_matrix) j m))"
    using i j by (intro sum.cong refl) (simp add: FtF_entry Sigma_exact_def)
  ultimately show "(\<Sum>k<9. entry FtF i k * entry Sigma_exact k j) = (if i = j then 1 else 0)"
    by simp
qed (simp_all add: Sigma_exact_def)

lemma FtF_sym: "i < 9 \<Longrightarrow> j < 9 \<Longrightarrow> entry FtF i j = entry FtF j i"
  by (simp add: FtF_entry mult.commute)

lemma right_inverse_entry_sym:
  assumes "is_right_inverse FtF s" "i < 9" "j < 9"
  shows "entry s i j = entry s j i"
  by (rule inverse_symmetric[where a = "entry FtF" and n = 9, OF FtF_sym right_inverse_entries[OF assms(1)] assms(2,3)])

lemma right_inverse_symmetric:
  assumes "is_right_inverse FtF s"
  shows "symmetric s"
  unfolding symmetric_def
proof (rule matrix_eqI)
  show "wf_matrix (transpose_m s)" by simp
  show "wf_matrix s" using assms by (simp add: is_right_inverse_def)
  show "nrows (transpose_m s) = nrows s" "ncols (transpose_m s) = ncols s"
    using assms by (simp_all add: is_right_inverse_def)
next
  fix i j assume "i < nrows (transpose_m s)" "j < ncols (transpose_m s)"
  then have "i < 9" "j < 9" "i < ncols s" "j < nrows s"
    using assms by (simp_all add: is_right_inverse_def)
  then show "entry (transpose_m s) i j = entry s i j"
    using right_inverse_entry_sym[OF assms, of j i] by simp
qed

lemma right_inverse_left:
  assumes "is_right_inverse FtF s"
  shows "matmul s FtF = Inr (eye 9)"
proof -
  have sh: "nrows s = 9" "ncols s = 9" using assms by (simp_all add: is_right_inverse_def)
  have "(\<Sum>k<9. entry s i k * entry FtF k j) = (if i = j then 1 else 0)"
    if "i < 9" "j < 9" for i j
  proof -
    have "(\<Sum>k<9. entry s i k * entry FtF k j) = (\<Sum>k<9. entry FtF j k * entry s k i)"
      using that by (intro sum.cong refl) (simp add: FtF_sym right_inverse_entry_sym[OF assms] mult.commute)
    then show ?thesis using right_inverse_entries[OF assms that(2,1)] by auto
  qed
  then show ?thesis
    unfolding matmul_def eye_def using sh
    by (auto simp: sum_list_upt intro!: mk_matrix_cong)
qed


lemma nonzero_vec_iff: "nonzero_vec x \<longleftrightarrow> (\<exists>i<length x. x ! i \<noteq> 0)"
  by (simp add: nonzero_vec_def list_ex_length)

lemma quad_form_sum:
  "quad_form m x = (\<Sum>i<nrows m. \<Sum>j<ncols m. x ! i * entry m i j * x ! j)"
  by (simp add: quad_form_def sum_list_upt)

lemma right_inverse_pd:
  assumes "is_right_inverse FtF s"
  shows "positive_definite s"
  unfolding positive_definite_def
proof (intro allI impI)
  fix x :: "real list"
  assume x: "length x = nrows s \<and> nonzero_vec x"
  have sh: "nrows s = 9" "ncols s = 9" using assms by (simp_all add: is_right_inverse_def)
  have nz: "\<exists>i<9. x ! i \<noteq> 0" using x sh by (auto simp: nonzero_vec_iff)
  have AS: "(\<Sum>k<9. (\<Sum>l<9. entry F_matrix l i * entry F_matrix l k) * entry s k j)
              = (if i = j then 1 else 0)" if "i < 9" "j < 9" for i j
  proof -
    have "(\<Sum>k<9. (\<Sum>l<9. entry F_matrix l i * entry F_matrix l k) * entry s k j)
        = (\<Sum>k<9. entry FtF i k * entry s k j)"
      using that by (intro sum.cong refl) (simp add: FtF_entry)
    then show ?thesis using right_inverse_entries[OF assms that] by simp
  qed
  have "0 < (\<Sum>i<9. \<Sum>j<9. x ! i * entry s i j * x ! j)"
    by (rule gram_inverse_pd[where F = "entry F_matrix" and x = "\<lambda>i. x ! i", OF F_lower_tri AS nz])
  then show "0 < quad_form s x" by (simp add: quad_form_sum sh)
qed

lemma pd_eigenvalue_pos:
  assumes pd: "positive_definite m" and sq: "nrows m = ncols m" and ev: "eigenvalue m lam"
  shows "0 < lam"
proof -
  from ev obtain v where v: "length v = ncols m" "nonzero_vec v"
    and mv: "matvec m v = Inr (map (\<lambda>x. lam * x) v)"
    by (auto simp: eigenvalue_def)
  let ?n = "ncols m"
  from mv v(1) have "map (\<lambda>i. \<Sum>k\<leftarrow>[0..<?n]. entry m i k * v ! k) [0..<?n] = map (\<lambda>x. lam * x) v"
    by (simp add: matvec_def sq)
  then have "\<And>i. i < ?n \<Longrightarrow>
      map (\<lambda>i. \<Sum>k\<leftarrow>[0..<?n]. entry m i k * v ! k) [0..<?n] ! i = map (\<lambda>x. lam * x) v ! i"
    by simp
  then have row: "\<And>i. i < ?n \<Longrightarrow> (\<Sum>k<?n. entry m i k * v ! k) = lam * v ! i"
    using v(1) by (simp add: sum_list_upt)
  have "quad_form m v = (\<Sum>i<?n. v ! i * (\<Sum>j<?n. entry m i j * v ! j))"
    by (simp add: quad_form_sum sq sum_distrib_left mult.assoc)
  also have "\<dots> = (\<Sum>i<?n. lam * (v ! i * v ! i))"
    by (intro sum.cong refl) (simp add: row)
  also have "\<dots> = lam * (\<Sum>i<?n. v ! i * v ! i)"
    by (simp add: sum_distrib_left)
  finally have q: "quad_form m v = lam * (\<Sum>i<?n. v ! i * v ! i)" .
  have "0 < quad_form m v" using pd v sq by (simp add: positive_definite_def)
  moreover have "0 \<le> (\<Sum>i<?n. v ! i * v ! i)" by (intro sum_nonneg) simp
  ultimately show ?thesis unfolding q by (auto simp: zero_less_mult_iff)
qed

lemma linalg_inv_ok_iff: "linalg_inv_ok linalg_inv \<longleftrightarrow> inv_ok_at linalg_inv FtF"
  by (simp add: linalg_inv_ok_def matmul_FtF)

lemma init_result:
  assumes "linalg_inv_ok linalg_inv"
  shows "\<exists>s. linalg_inv FtF = Inr s \<and> is_right_inverse FtF s \<and>
             init linalg_inv T0 rng0 fresh =
               Inr \<lparr>T = T0, rng = (case rng0 of None \<Rightarrow> fresh | Some g \<Rightarrow> g), cov = s\<rparr>"
proof (cases "linalg_inv FtF")
  case (Inl e)
  with assms Sigma_exact_right_inverse show ?thesis
    by (auto simp: linalg_inv_ok_iff inv_ok_at_def)
next
  case (Inr s)
  with assms show ?thesis
    by (simp add: linalg_inv_ok_iff inv_ok_at_def init_def matmul_FtF)
qed


lemma exact_inv_ok: "linalg_inv_ok exact_inv"
  by (simp add: linalg_inv_ok_iff inv_ok_at_def exact_inv_def Sigma_exact_right_inverse)

lemma init_exact_inv:
  "init exact_inv T0 rng0 fresh =
     Inr \<lparr>T = T0, rng = (case rng0 of None \<Rightarrow> fresh | Some g \<Rightarrow> g), cov = Sigma_exact\<rparr>"
  by (simp add: init_def matmul_FtF exact_inv_def)

lemma prior_frame:
  "cov (snd (prior gen self)) = cov self \<and> T (snd (prior gen self)) = T self"
  by (simp add: prior_def split: prod.splits sum.splits)

lemma observation_model_frame:
  "cov (snd (observation_model gen self params)) = cov self \<and>
   T (snd (observation_model gen self params)) = T self"
  by (simp add: observation_model_def split: list.splits prod.splits sum.splits)

section \<open>Runs of the observation model\<close>

lemma expit_bounds: "0 < expit x \<and> expit x < 1"
proof -
  have "0 < exp (- x)" by simp
  then show ?thesis unfolding expit_def by (simp add: add_pos_pos)
qed


lemma success_prob_eq:
  assumes "nrows V = 9" "length f = 9"
  shows "success_prob V f beta =
     Inr (map (\<lambda>t. expit ((\<Sum>k<9. entry V k t * f ! k) + beta)) [0..<ncols V])"
proof -
  have "matvec (transpose_m V) f =
      Inr (map (\<lambda>t. \<Sum>k<9. entry V k t * f ! k) [0..<ncols V])"
    using assms by (simp add: matvec_def sum_list_upt)
  then show ?thesis by (simp add: success_prob_def comp_def)
qed

lemma success_prob_mismatch:
  assumes "nrows V = 9" "length f \<noteq> 9"
  shows "success_prob V f beta = Inl ValueError"
  using assms by (simp add: success_prob_def matvec_def)

lemma np_c_design:
  assumes "length z = ncols V"
  shows "\<exists>M. np_c (expand_dims z) (transpose_m V) = Inr M \<and> wf_matrix M \<and>
     nrows M = ncols V \<and> ncols M = Suc (nrows V) \<and>
     (\<forall>t<ncols V. entry M t 0 = z ! t \<and> (\<forall>k<nrows V. entry M t (Suc k) = entry V k t))"
proof -
  let ?M = "\<lparr>ncols = 1 + nrows V, rows = map2 (@) (map (\<lambda>x. [x]) z) (rows (transpose_m V))\<rparr>"
  have r: "rows (transpose_m V) = map (\<lambda>i. map (\<lambda>j. entry V j i) [0..<nrows V]) [0..<ncols V]"
    by (simp add: transpose_m_def mk_matrix_def)
  have e: "nrows (expand_dims z) = length z" "ncols (expand_dims z) = 1"
    "rows (expand_dims z) = map (\<lambda>x. [x]) z"
    by (simp_all add: nrows_def expand_dims_def)
  have 1: "np_c (expand_dims z) (transpose_m V) = Inr ?M"
    using assms by (simp add: np_c_def e)
  have 2: "wf_matrix ?M"
    by (auto simp: wf_matrix_def list_all_iff r set_zip)
  have 3: "nrows ?M = ncols V" using assms by (simp add: nrows_def r)
  have 4: "\<forall>t<ncols V. entry ?M t 0 = z ! t \<and> (\<forall>k<nrows V. entry ?M t (Suc k) = entry V k t)"
    using assms by (simp add: entry_def r)
  from 1 2 3 4 show ?thesis by (intro exI[of _ ?M]) simp
qed

lemma observation_model_run:
  assumes gen: "generator_ok gen" and T: "0 \<le> T self" and f: "length f = 9"
  shows "\<exists>V g1 z g2 M.
     rng_normal_size gen 0 1 (9, T self) (rng self) = (Inr V, g1) \<and>
     wf_matrix V \<and> nrows V = 9 \<and> ncols V = nat (T self) \<and>
     rng_binomial gen 1
       (map (\<lambda>t. expit ((\<Sum>k<9. entry V k t * f ! k) + beta)) [0..<nat (T self)]) g1
       = (Inr z, g2) \<and>
     length z = nat (T self) \<and> (\<forall>x \<in> set z. x \<le> 1) \<and>
     observation_model gen self (beta # f) = (Inr M, self\<lparr>rng := g2\<rparr>) \<and>
     wf_matrix M \<and> nrows M = nat (T self) \<and> ncols M = 10 \<and>
     (\<forall>t<nat (T self). entry M t 0 = real (z ! t) \<and>
        (\<forall>k<9. entry M t (Suc k) = entry V k t))"
proof -
  obtain r1 g1 where n: "rng_normal_size gen 0 1 (9, T self) (rng self) = (r1, g1)"
    by (cases "rng_normal_size gen 0 1 (9, T self) (rng self)")
  from gen T obtain V where V: "fst (rng_normal_size gen 0 1 (9, T self) (rng self)) = Inr V"
    "wf_matrix V" "nrows V = 9" "ncols V = nat (T self)"
    unfolding generator_ok_def by (metis nat_numeral zero_le_numeral)
  from n V(1) have n': "rng_normal_size gen 0 1 (9, T self) (rng self) = (Inr V, g1)" by simp
  let ?p = "map (\<lambda>t. expit ((\<Sum>k<9. entry V k t * f ! k) + beta)) [0..<nat (T self)]"
  have sp: "success_prob V f beta = Inr ?p"
    using success_prob_eq[OF V(3) f, of beta] V(4) by simp
  have pr: "\<forall>p \<in> set ?p. 0 \<le> p \<and> p \<le> 1"
    using expit_bounds by (auto intro: less_imp_le)
  obtain r2 g2 where b: "rng_binomial gen 1 ?p g1 = (r2, g2)"
    by (cases "rng_binomial gen 1 ?p g1")
  from gen pr obtain z where z: "fst (rng_binomial gen 1 ?p g1) = Inr z"
    "length z = length ?p" "\<forall>x \<in> set z. x \<le> 1"
    unfolding generator_ok_def by meson
  from b z(1) have b': "rng_binomial gen 1 ?p g1 = (Inr z, g2)" by simp
  have lz: "length z = nat (T self)" using z(2) by simp
  from np_c_design[of "map real z" V] lz V(3,4) obtain M where
    M: "np_c (expand_dims (map real z)) (transpose_m V) = Inr M" "wf_matrix M"
       "nrows M = nat (T self)" "ncols M = 10"
       "\<forall>t<nat (T self). entry M t 0 = map real z ! t \<and> (\<forall>k<9. entry M t (Suc k) = entry V k t)"
    by auto
  have om: "observation_model gen self (beta # f) = (Inr M, self\<lparr>rng := g2\<rparr>)"
    using n' sp b' M(1) by (simp add: observation_model_def)
  from M(5) lz have "\<forall>t<nat (T self). entry M t 0 = real (z ! t) \<and>
        (\<forall>k<9. entry M t (Suc k) = entry V k t)" by simp
  with n' V b' lz z(3) om M(2,3,4) show ?thesis by blast
qed


section \<open>The constructor\<close>

text \<open>
  Claim C1.  The constructor builds the \<open>9 \<times> 9\<close> matrix \<open>F\<close> with
  \<open>F[i,i] = 1 + sqrt(i/9)\<close> for \<open>i\<close> from 0 to 8, \<open>F[i,i-1] = -2\<close> for \<open>i \<ge> 1\<close>,
  \<open>F[i,i-2] = 1\<close> for \<open>i \<ge> 2\<close> and zero elsewhere.  Provided \<open>np.linalg.inv\<close> meets its
  contract on \<open>F\<^sup>T F\<close>, construction succeeds for every \<open>T\<close> and every choice of
  generator, and the field \<open>cov\<close> is what the one call of \<open>np.linalg.inv\<close> on \<open>F\<^sup>T F\<close>
  returned, an inverse of \<open>F\<^sup>T F\<close> from both sides.  Neither \<open>prior\<close> nor
  \<open>observation_model\<close> changes the field: the value computed at construction stays.
\<close>

theorem init_builds_F_and_caches_cov:
  assumes "linalg_inv_ok linalg_inv"
  shows "nrows F_matrix = 9 \<and> ncols F_matrix = 9 \<and> wf_matrix F_matrix \<and>
     (\<forall>i<9. \<forall>j<9. entry F_matrix i j =
        (if j = i then 1 + sqrt (real i / 9) else if j + 1 = i then - 2
         else if j + 2 = i then 1 else 0)) \<and>
     (\<exists>a self. matmul (transpose_m F_matrix) F_matrix = Inr a \<and>
        init linalg_inv T0 rng0 fresh = Inr self \<and>
        linalg_inv a = Inr (cov self) \<and>
        matmul a (cov self) = Inr (eye 9) \<and> matmul (cov self) a = Inr (eye 9)) \<and>
     cov (snd (prior gen self)) = cov self \<and>
     cov (snd (observation_model gen self params)) = cov self"
proof -
  from init_result[OF assms, of T0 rng0 fresh] obtain s where
    s: "linalg_inv FtF = Inr s" "is_right_inverse FtF s"
       "init linalg_inv T0 rng0 fresh =
          Inr \<lparr>T = T0, rng = (case rng0 of None \<Rightarrow> fresh | Some g \<Rightarrow> g), cov = s\<rparr>"
    by blast
  have "matmul FtF s = Inr (eye 9)" using s(2) by (simp add: is_right_inverse_def)
  moreover have "matmul s FtF = Inr (eye 9)" by (rule right_inverse_left[OF s(2)])
  ultimately have "\<exists>a self. matmul (transpose_m F_matrix) F_matrix = Inr a \<and>
        init linalg_inv T0 rng0 fresh = Inr self \<and>
        linalg_inv a = Inr (cov self) \<and>
        matmul a (cov self) = Inr (eye 9) \<and> matmul (cov self) a = Inr (eye 9)"
    using s(1,3) matmul_FtF by simp
  then show ?thesis
    using F_shape F_entry prior_frame[of gen self]
      observation_model_frame[of gen self params]
    by simp
qed

theorem init_builds_F_and_caches_cov_witness:
  "linalg_inv_ok exact_inv \<and>
   entry F_matrix 4 4 = 1 + sqrt (4 / 9) \<and> entry F_matrix 4 3 = - 2 \<and>
   entry F_matrix 4 2 = 1 \<and> entry F_matrix 4 1 = 0 \<and> entry F_matrix 4 5 = 0 \<and>
   (\<exists>a self. matmul (transpose_m F_matrix) F_matrix = Inr a \<and>
      init exact_inv 100 None (0::nat) = Inr self \<and>
      matmul a (cov self) = Inr (eye 9) \<and> matmul (cov self) a = Inr (eye 9))"
proof -
  note t = init_builds_F_and_caches_cov[OF exact_inv_ok, of 100 None "0::nat" counter_gen
      "\<lparr>T = 100, rng = 0, cov = Sigma_exact\<rparr>" "[]"]
  from t have e: "\<forall>i<9. \<forall>j<9. entry F_matrix i j =
        (if j = i then 1 + sqrt (real i / 9) else if j + 1 = i then - 2
         else if j + 2 = i then 1 else 0)" by blast
  from t have "\<exists>a self. matmul (transpose_m F_matrix) F_matrix = Inr a \<and>
      init exact_inv 100 None (0::nat) = Inr self \<and>
      matmul a (cov self) = Inr (eye 9) \<and> matmul (cov self) a = Inr (eye 9)" by blast
  moreover have "entry F_matrix 4 4 = 1 + sqrt (4 / 9)" using e[rule_format, of 4 4] by simp
  moreover have "entry F_matrix 4 3 = - 2" using e[rule_format, of 4 3] by simp
  moreover have "entry F_matrix 4 2 = 1" using e[rule_format, of 4 2] by simp
  moreover have "entry F_matrix 4 1 = 0" using e[rule_format, of 4 1] by simp
  moreover have "entry F_matrix 4 5 = 0" using e[rule_format, of 4 5] by simp
  ultimately show ?thesis using exact_inv_ok by simp
qed

text \<open>
  Claim C6, as stated: \<open>F\<close> is upper triangular, every entry strictly below the diagonal
  being zero.  The entry in row 1 and column 0 lies below the diagonal and is \<open>-2\<close>.
\<close>

theorem F_not_upper_triangular:
  "entry F_matrix 1 0 = - 2 \<and> \<not> upper_triangular F_matrix"
proof -
  have e: "entry F_matrix 1 0 = - 2" using F_entry[of 1 0] by simp
  have "\<not> upper_triangular F_matrix"
  proof
    assume "upper_triangular F_matrix"
    then have "entry F_matrix 1 0 = 0"
      unfolding upper_triangular_def F_shape by (elim allE[of _ 1] impE allE[of _ 0]) simp_all
    with e show False by simp
  qed
  with e show ?thesis by simp
qed

text \<open>
  Claim C6, amended: \<open>F\<close> is lower triangular with a positive diagonal: every entry
  strictly above the diagonal is zero and every diagonal entry is positive.
\<close>

theorem F_lower_triangular_positive_diagonal:
  "lower_triangular F_matrix \<and> positive_diagonal F_matrix"
  unfolding lower_triangular_def positive_diagonal_def F_shape
  using F_diag_pos by (simp add: F_entry)

theorem F_lower_triangular_positive_diagonal_witness:
  "entry F_matrix 2 7 = 0 \<and> 0 < entry F_matrix 3 3"
proof -
  from F_lower_triangular_positive_diagonal
  have l: "\<forall>i<9. \<forall>j<9. i < j \<longrightarrow> entry F_matrix i j = 0"
    and d: "\<forall>i<9. 0 < entry F_matrix i i"
    unfolding lower_triangular_def positive_diagonal_def F_shape by simp_all
  from l[rule_format, of 2 7] d[rule_format, of 3] show ?thesis by simp
qed

text \<open>
  Claim C7.  Provided \<open>np.linalg.inv\<close> meets its contract on \<open>F\<^sup>T F\<close>, the covariance
  cached by the constructor is symmetric and positive definite, and each of its eigenvalues
  is positive, whatever \<open>T\<close> the instance is built with.
\<close>

theorem cov_symmetric_positive_definite:
  assumes "linalg_inv_ok linalg_inv"
  shows "\<exists>self. init linalg_inv T0 rng0 fresh = Inr self \<and> T self = T0 \<and>
           symmetric (cov self) \<and> positive_definite (cov self) \<and>
           (\<forall>lam. eigenvalue (cov self) lam \<longrightarrow> 0 < lam)"
proof -
  from init_result[OF assms, of T0 rng0 fresh] obtain s where
    s: "is_right_inverse FtF s"
       "init linalg_inv T0 rng0 fresh =
          Inr \<lparr>T = T0, rng = (case rng0 of None \<Rightarrow> fresh | Some g \<Rightarrow> g), cov = s\<rparr>"
    by blast
  have sq: "nrows s = ncols s" using s(1) by (simp add: is_right_inverse_def)
  have pd: "positive_definite s" by (rule right_inverse_pd[OF s(1)])
  have "\<forall>lam. eigenvalue s lam \<longrightarrow> 0 < lam"
    using pd_eigenvalue_pos[OF pd sq] by blast
  with s(2) pd right_inverse_symmetric[OF s(1)] show ?thesis by simp
qed

theorem cov_symmetric_positive_definite_witness:
  "linalg_inv_ok exact_inv \<and>
   (\<exists>self. init exact_inv 5 None (0::nat) = Inr self \<and> symmetric (cov self) \<and>
      0 < quad_form (cov self) [1, 0, 0, 0, 0, 0, 0, 0, 0])"
proof -
  from cov_symmetric_positive_definite[OF exact_inv_ok, of 5 None "0::nat"]
  obtain self where self: "init exact_inv 5 None (0::nat) = Inr self"
    "symmetric (cov self)" "positive_definite (cov self)" by blast
  from self(1) have c: "cov self = Sigma_exact" by (auto simp: init_exact_inv)
  have "length [1, 0, 0, 0, 0, 0, 0, 0, 0::real] = nrows (cov self)"
    by (simp add: c Sigma_exact_def)
  moreover have "nonzero_vec [1, 0, 0, 0, 0, 0, 0, 0, 0]" by (simp add: nonzero_vec_def)
  ultimately have "0 < quad_form (cov self) [1, 0, 0, 0, 0, 0, 0, 0, 0]"
    using self(3) unfolding positive_definite_def by blast
  with self(1,2) exact_inv_ok show ?thesis by blast
qed

section \<open>Facts about the test generator and the constructor\<close>

lemma counter_gen_ok: "generator_ok counter_gen"
  unfolding generator_ok_def counter_gen_def
  by (auto simp: list_all_iff)

lemma counter_gen_normal_size:
  "0 \<le> c \<Longrightarrow> rng_normal_size counter_gen loc scale (9, c) g =
     (Inr (mk_matrix 9 (nat c) (\<lambda>i j. loc + scale * cyc (g + i * nat c + j))), g + 9 * nat c)"
  by (simp add: counter_gen_def)


lemma init_cov_shape:
  assumes "linalg_inv_ok linalg_inv" "init linalg_inv T0 rng0 fresh = Inr self0"
  shows "wf_matrix (cov self0) \<and> nrows (cov self0) = 9 \<and> ncols (cov self0) = 9 \<and>
         T self0 = T0 \<and> is_right_inverse FtF (cov self0)"
proof -
  from init_result[OF assms(1), of T0 rng0 fresh] assms(2)
  obtain s where "is_right_inverse FtF s" "cov self0 = s" "T self0 = T0" by auto
  then show ?thesis by (simp add: is_right_inverse_def)
qed


section \<open>Observation simulation\<close>

text \<open>
  Claim C2.  On a parameter vector \<open>theta\<close> of length 10, with \<open>T\<close> not negative and a
  generator that keeps numpy's shapes, \<open>observation_model\<close> first asks the generator,
  in the state the instance holds, for a \<open>9 \<times> T\<close> array \<open>V\<close> of normal draws with
  mean 0 and standard deviation 1; then, in the state after that draw, for binomial draws
  with one trial each and success probabilities
  \<open>p\<^sub>t = 1 / (1 + exp (- (\<Sum>k<9. V[k,t] * theta[k+1] + theta[0])))\<close>, one for each of the
  \<open>T\<close> time steps; the draws \<open>z\<close> are column 0 of the result.
\<close>

theorem observation_model_algorithm:
  assumes "generator_ok gen" and "0 \<le> T self" and "length theta = 10"
  shows "\<exists>V g1 z g2 x.
     rng_normal_size gen 0 1 (9, T self) (rng self) = (Inr V, g1) \<and>
     wf_matrix V \<and> nrows V = 9 \<and> ncols V = nat (T self) \<and>
     rng_binomial gen 1
       (map (\<lambda>t. 1 / (1 + exp (- ((\<Sum>k<9. entry V k t * theta ! (k + 1)) + theta ! 0))))
          [0..<nat (T self)]) g1 = (Inr z, g2) \<and>
     length z = nat (T self) \<and>
     observation_model gen self theta = (Inr x, self\<lparr>rng := g2\<rparr>) \<and>
     (\<forall>t<nat (T self). entry x t 0 = real (z ! t))"
proof -
  from assms(3) obtain beta f where th: "theta = beta # f" "length f = 9"
    by (cases theta) auto
  have idx: "theta ! 0 = beta" "\<And>k. theta ! (k + 1) = f ! k" by (simp_all add: th)
  from observation_model_run[OF assms(1,2) th(2), of beta]
  show ?thesis unfolding idx th(1)[symmetric] expit_def by blast
qed


theorem observation_model_algorithm_witness:
  "generator_ok counter_gen \<and>
   (\<exists>V g1 z g2 x.
      rng_normal_size counter_gen 0 1 (9, 2) 0 = (Inr V, g1) \<and> length z = 2 \<and>
      observation_model counter_gen \<lparr>T = 2, rng = 0, cov = Sigma_exact\<rparr>
        [0, 0, 0, 0, 0, 0, 0, 0, 0, 0] = (Inr x, \<lparr>T = 2, rng = g2, cov = Sigma_exact\<rparr>) \<and>
      entry x 1 0 = real (z ! 1))"
proof -
  let ?self = "\<lparr>T = 2, rng = 0::nat, cov = Sigma_exact\<rparr>"
  let ?theta = "[0, 0, 0, 0, 0, 0, 0, 0, 0, 0::real]"
  have h: "0 \<le> T ?self" "length ?theta = 10" by simp_all
  from observation_model_algorithm[OF counter_gen_ok h]
  obtain V g1 z g2 x where
    "rng_normal_size counter_gen 0 1 (9, T ?self) (rng ?self) = (Inr V, g1)"
    "length z = nat (T ?self)"
    "observation_model counter_gen ?self ?theta = (Inr x, ?self\<lparr>rng := g2\<rparr>)"
    "\<forall>t<nat (T ?self). entry x t 0 = real (z ! t)"
    by blast
  then have "rng_normal_size counter_gen 0 1 (9, 2) 0 = (Inr V, g1) \<and> length z = 2 \<and>
      observation_model counter_gen ?self ?theta = (Inr x, \<lparr>T = 2, rng = g2, cov = Sigma_exact\<rparr>) \<and>
      entry x 1 0 = real (z ! 1)"
    by simp
  then show ?thesis using counter_gen_ok by blast
qed

text \<open>
  Claim C3.  For positive \<open>T\<close> and a parameter vector of length 10, with a generator
  that keeps numpy's shapes and ranges, \<open>observation_model\<close> returns an array with
  exactly \<open>T\<close> rows and 10 columns; each entry of column 0 is 0 or 1, and columns 1 to 9
  of row \<open>t\<close> are \<open>V[0,t], \<dots>, V[8,t]\<close> for the design matrix \<open>V\<close> drawn in the call.
\<close>

theorem observation_model_shape:
  assumes "generator_ok gen" and "0 < T self" and "length theta = 10"
  shows "\<exists>V g1 x g2.
     rng_normal_size gen 0 1 (9, T self) (rng self) = (Inr V, g1) \<and>
     observation_model gen self theta = (Inr x, self\<lparr>rng := g2\<rparr>) \<and>
     wf_matrix x \<and> int (nrows x) = T self \<and> ncols x = 10 \<and>
     (\<forall>t<nrows x. (entry x t 0 = 0 \<or> entry x t 0 = 1) \<and>
        (\<forall>k<9. entry x t (k + 1) = entry V k t))"
proof -
  from assms(3) obtain beta f where th: "theta = beta # f" "length f = 9"
    by (cases theta) auto
  from assms(2) have T0: "0 \<le> T self" by simp
  from observation_model_run[OF assms(1) T0 th(2), of beta]
  obtain V g1 z g2 x where r:
    "rng_normal_size gen 0 1 (9, T self) (rng self) = (Inr V, g1)"
    "length z = nat (T self)" "\<forall>b \<in> set z. b \<le> 1"
    "observation_model gen self (beta # f) = (Inr x, self\<lparr>rng := g2\<rparr>)"
    "wf_matrix x" "nrows x = nat (T self)" "ncols x = 10"
    "\<forall>t<nat (T self). entry x t 0 = real (z ! t) \<and> (\<forall>k<9. entry x t (Suc k) = entry V k t)"
    by blast
  have bin: "entry x t 0 = 0 \<or> entry x t 0 = 1" if "t < nrows x" for t
  proof -
    from that r(2,6) have "z ! t \<in> set z" by simp
    with r(3) have "z ! t = 0 \<or> z ! t = 1" by fastforce
    with r(8) that r(6) show ?thesis by auto
  qed
  from r(6) T0 have "int (nrows x) = T self" by simp
  with r(1,4,5,7,8) r(6) bin show ?thesis unfolding th(1) by (intro exI[of _ V] exI[of _ g1] exI[of _ x] exI[of _ g2]) simp
qed

theorem observation_model_shape_witness:
  "generator_ok counter_gen \<and>
   (\<exists>V g1 x g2.
      rng_normal_size counter_gen 0 1 (9, 5) 0 = (Inr V, g1) \<and>
      observation_model counter_gen \<lparr>T = 5, rng = 0, cov = Sigma_exact\<rparr>
        [0, 0, 0, 0, 0, 0, 0, 0, 0, 0] = (Inr x, \<lparr>T = 5, rng = g2, cov = Sigma_exact\<rparr>) \<and>
      nrows x = 5 \<and> ncols x = 10 \<and> (entry x 4 0 = 0 \<or> entry x 4 0 = 1) \<and>
      entry x 4 9 = entry V 8 4)"
proof -
  let ?self = "\<lparr>T = 5, rng = 0::nat, cov = Sigma_exact\<rparr>"
  let ?theta = "[0, 0, 0, 0, 0, 0, 0, 0, 0, 0::real]"
  have h: "0 < T ?self" "length ?theta = 10" by simp_all
  from observation_model_shape[OF counter_gen_ok h]
  obtain V g1 x g2 where r:
    "rng_normal_size counter_gen 0 1 (9, T ?self) (rng ?self) = (Inr V, g1)"
    "observation_model counter_gen ?self ?theta = (Inr x, ?self\<lparr>rng := g2\<rparr>)"
    "int (nrows x) = T ?self" "ncols x = 10"
    "\<forall>t<nrows x. (entry x t 0 = 0 \<or> entry x t 0 = 1) \<and>
        (\<forall>k<9. entry x t (k + 1) = entry V k t)"
    by blast
  from r(3) have n: "nrows x = 5" by simp
  from r(5)[rule_format, of 4] n
  have t4: "entry x 4 0 = 0 \<or> entry x 4 0 = 1" "\<forall>k<9. entry x 4 (k + 1) = entry V k 4"
    by simp_all
  from t4(2)[rule_format, of 8] have "entry x 4 9 = entry V 8 4" by simp
  with t4(1) r(1,2,4) n have "rng_normal_size counter_gen 0 1 (9, 5) 0 = (Inr V, g1) \<and>
      observation_model counter_gen ?self ?theta = (Inr x, \<lparr>T = 5, rng = g2, cov = Sigma_exact\<rparr>) \<and>
      nrows x = 5 \<and> ncols x = 10 \<and> (entry x 4 0 = 0 \<or> entry x 4 0 = 1) \<and>
      entry x 4 9 = entry V 8 4"
    by simp
  then show ?thesis using counter_gen_ok by blast
qed


text \<open>
  Claim C5, as stated: a parameter vector that does not have exactly 10 entries is
  rejected before any randomness is consumed.  With the default \<open>T = 100\<close> and a vector of
  three entries the call fails with ValueError, raised by \<open>V.T @ f\<close>, and by then the
  generator has made the 900 draws of the design matrix: it is left in state 900, not 0.
\<close>

theorem short_params_fail_after_draw:
  "length [0, 0, 0::real] \<noteq> 10 \<and>
   observation_model counter_gen \<lparr>T = 100, rng = 0, cov = Sigma_exact\<rparr> [0, 0, 0]
     = (Inl ValueError, \<lparr>T = 100, rng = 900, cov = Sigma_exact\<rparr>) \<and>
   snd (rng_normal_size counter_gen 0 1 (9, 100) 0) = 900 \<and>
   rng (snd (observation_model counter_gen \<lparr>T = 100, rng = 0, cov = Sigma_exact\<rparr> [0, 0, 0]))
     \<noteq> 0"
  by (simp add: observation_model_def counter_gen_normal_size success_prob_def matvec_def)

text \<open>
  Claim C5, amended: for \<open>T\<close> not negative, a one-dimensional parameter vector that does
  not have exactly 10 entries makes the call fail without an observation matrix.  The empty
  vector fails with IndexError and leaves the instance as it was; any other such vector
  fails with ValueError after the design matrix has been drawn, and leaves the generator in
  the state after that draw.
\<close>

theorem bad_params_fail:
  assumes "generator_ok gen" and "0 \<le> T self" and "length params \<noteq> 10"
  shows "(params = [] \<longrightarrow> observation_model gen self params = (Inl IndexError, self)) \<and>
         (params \<noteq> [] \<longrightarrow> observation_model gen self params =
            (Inl ValueError,
             self\<lparr>rng := snd (rng_normal_size gen 0 1 (9, T self) (rng self))\<rparr>))"
proof (cases params)
  case Nil
  then show ?thesis by (simp add: observation_model_def)
next
  case (Cons beta f)
  with assms(3) have f: "length f \<noteq> 9" by simp
  obtain r1 g1 where n: "rng_normal_size gen 0 1 (9, T self) (rng self) = (r1, g1)"
    by (cases "rng_normal_size gen 0 1 (9, T self) (rng self)")
  from assms(1,2) obtain V where V: "fst (rng_normal_size gen 0 1 (9, T self) (rng self)) = Inr V"
    "nrows V = 9"
    unfolding generator_ok_def by (metis nat_numeral zero_le_numeral)
  from n V(1) have n': "rng_normal_size gen 0 1 (9, T self) (rng self) = (Inr V, g1)" by simp
  show ?thesis
    using n' success_prob_mismatch[OF V(2) f, of beta] Cons
    by (simp add: observation_model_def)
qed

theorem bad_params_fail_witness:
  "generator_ok counter_gen \<and>
   observation_model counter_gen \<lparr>T = 5, rng = 0, cov = Sigma_exact\<rparr> []
     = (Inl IndexError, \<lparr>T = 5, rng = 0, cov = Sigma_exact\<rparr>) \<and>
   observation_model counter_gen \<lparr>T = 5, rng = 0, cov = Sigma_exact\<rparr> [1, 2]
     = (Inl ValueError, \<lparr>T = 5, rng = 45, cov = Sigma_exact\<rparr>)"
proof -
  let ?self = "\<lparr>T = 5, rng = 0::nat, cov = Sigma_exact\<rparr>"
  have h: "0 \<le> T ?self" "length ([]::real list) \<noteq> 10" "length [1, 2::real] \<noteq> 10" by simp_all
  from bad_params_fail[OF counter_gen_ok h(1,2)]
  have a: "observation_model counter_gen ?self [] = (Inl IndexError, ?self)" by simp
  from bad_params_fail[OF counter_gen_ok h(1,3)]
  have b: "observation_model counter_gen ?self [1, 2] = (Inl ValueError,
             ?self\<lparr>rng := snd (rng_normal_size counter_gen 0 1 (9, T ?self) (rng ?self))\<rparr>)"
    by simp
  have "snd (rng_normal_size counter_gen 0 1 (9, T ?self) (rng ?self)) = 45"
    by (simp add: counter_gen_normal_size)
  with a b show ?thesis using counter_gen_ok by simp
qed





section \<open>Prior sampling\<close>

text \<open>
  Claim C4.  On an instance built by the constructor, in whatever state \<open>g\<close> its
  generator is, \<open>prior\<close> draws \<open>beta\<close> by \<open>normal\<close> with mean 0 and standard deviation
  2, then \<open>f\<close> by \<open>multivariate_normal\<close> with the zero mean of length 9 and the cached
  covariance, and returns the vector of length 10 with \<open>beta\<close> in entry 0 and \<open>f\<close> in
  entries 1 to 9.
\<close>

theorem prior_draw:
  assumes "generator_ok gen" and "linalg_inv_ok linalg_inv"
      and "init linalg_inv T0 rng0 fresh = Inr self0"
  shows "\<exists>beta g1 f g2.
     rng_normal gen 0 2 g = (beta, g1) \<and>
     rng_multivariate_normal gen (replicate 9 0) (cov self0) g1 = (Inr f, g2) \<and>
     length f = 9 \<and>
     prior gen (self0\<lparr>rng := g\<rparr>) = (Inr (beta # f), self0\<lparr>rng := g2\<rparr>) \<and>
     length (beta # f) = 10 \<and> (beta # f) ! 0 = beta \<and> drop 1 (beta # f) = f"
proof -
  obtain beta g1 where n: "rng_normal gen 0 2 g = (beta, g1)"
    by (cases "rng_normal gen 0 2 g")
  obtain r g2 where m: "rng_multivariate_normal gen (replicate 9 0) (cov self0) g1 = (r, g2)"
    by (cases "rng_multivariate_normal gen (replicate 9 0) (cov self0) g1")
  from init_cov_shape[OF assms(2,3)]
  have c: "wf_matrix (cov self0) \<and> nrows (cov self0) = length (replicate 9 (0::real)) \<and>
           ncols (cov self0) = length (replicate 9 (0::real))" by simp
  from assms(1) c obtain f where
    f: "fst (rng_multivariate_normal gen (replicate 9 0) (cov self0) g1) = Inr f"
       "length f = length (replicate 9 (0::real))"
    unfolding generator_ok_def by meson
  from m f(1) have m': "rng_multivariate_normal gen (replicate 9 0) (cov self0) g1 = (Inr f, g2)"
    by simp
  have "prior gen (self0\<lparr>rng := g\<rparr>) = (Inr (beta # f), self0\<lparr>rng := g2\<rparr>)"
    using n m' by (simp add: prior_def np_append_def)
  with n m' f(2) show ?thesis by simp
qed

theorem prior_draw_witness:
  "generator_ok counter_gen \<and> linalg_inv_ok exact_inv \<and>
   init exact_inv 5 (Some 3) (0::nat) = Inr \<lparr>T = 5, rng = 3, cov = Sigma_exact\<rparr> \<and>
   (\<exists>beta g1 f g2.
      rng_normal counter_gen 0 2 7 = (beta, g1) \<and>
      rng_multivariate_normal counter_gen (replicate 9 0) Sigma_exact g1 = (Inr f, g2) \<and>
      prior counter_gen \<lparr>T = 5, rng = 7, cov = Sigma_exact\<rparr>
        = (Inr (beta # f), \<lparr>T = 5, rng = g2, cov = Sigma_exact\<rparr>) \<and>
      length (beta # f) = 10)"
proof -
  let ?self0 = "\<lparr>T = 5, rng = 3::nat, cov = Sigma_exact\<rparr>"
  have i: "init exact_inv 5 (Some 3) (0::nat) = Inr ?self0" by (simp add: init_exact_inv)
  from prior_draw[OF counter_gen_ok exact_inv_ok i, of 7]
  obtain beta g1 f g2 where
    "rng_normal counter_gen 0 2 7 = (beta, g1)"
    "rng_multivariate_normal counter_gen (replicate 9 0) (cov ?self0) g1 = (Inr f, g2)"
    "prior counter_gen (?self0\<lparr>rng := 7\<rparr>) = (Inr (beta # f), ?self0\<lparr>rng := g2\<rparr>)"
    "length (beta # f) = 10"
    by blast
  then have "rng_normal counter_gen 0 2 7 = (beta, g1) \<and>
      rng_multivariate_normal counter_gen (replicate 9 0) Sigma_exact g1 = (Inr f, g2) \<and>
      prior counter_gen \<lparr>T = 5, rng = 7, cov = Sigma_exact\<rparr>
        = (Inr (beta # f), \<lparr>T = 5, rng = g2, cov = Sigma_exact\<rparr>) \<and>
      length (beta # f) = 10"
    by simp
  then show ?thesis using counter_gen_ok exact_inv_ok i by blast
qed

section \<open>Whole runs\<close>



text \<open>
  Claim C10.  The constructor accepts every integer \<open>T\<close>, zero and negative ones
  included.  With \<open>T = 0\<close>, \<open>observation_model\<close> on a parameter vector of length 10
  returns the empty array of shape \<open>(0, 10)\<close> and no error.
\<close>

theorem zero_T_accepted:
  assumes "generator_ok gen" and "linalg_inv_ok linalg_inv" and "length params = 10"
  shows "(\<exists>self. init linalg_inv T0 rng0 fresh = Inr self \<and> T self = T0) \<and>
     (\<exists>self g. init linalg_inv 0 rng0 fresh = Inr self \<and>
        observation_model gen self params = (Inr \<lparr>ncols = 10, rows = []\<rparr>, self\<lparr>rng := g\<rparr>))"
proof -
  from init_result[OF assms(2), of T0 rng0 fresh]
  have 1: "\<exists>self. init linalg_inv T0 rng0 fresh = Inr self \<and> T self = T0" by auto
  from init_result[OF assms(2), of 0 rng0 fresh]
  obtain self where self: "init linalg_inv 0 rng0 fresh = Inr self" "T self = 0" by auto
  from assms(3) obtain beta f where th: "params = beta # f" "length f = 9"
    by (cases params) auto
  have T0: "0 \<le> T self" using self(2) by simp
  from observation_model_run[OF assms(1) T0 th(2), of beta]
  obtain g2 M where M: "observation_model gen self (beta # f) = (Inr M, self\<lparr>rng := g2\<rparr>)"
    "nrows M = nat (T self)" "ncols M = 10" by blast
  from M(2) self(2) have "rows M = []" by (simp add: nrows_def)
  with M(3) have "M = \<lparr>ncols = 10, rows = []\<rparr>" by (cases M) simp
  with M(1) self(1) th(1) have "\<exists>self g. init linalg_inv 0 rng0 fresh = Inr self \<and>
        observation_model gen self params = (Inr \<lparr>ncols = 10, rows = []\<rparr>, self\<lparr>rng := g\<rparr>)"
    by blast
  with 1 show ?thesis by blast
qed

theorem zero_T_accepted_witness:
  "generator_ok counter_gen \<and> linalg_inv_ok exact_inv \<and>
   (\<exists>self. init exact_inv (- 7) None (0::nat) = Inr self \<and> T self = - 7) \<and>
   (\<exists>self g. init exact_inv 0 None (0::nat) = Inr self \<and>
      observation_model counter_gen self [0, 0, 0, 0, 0, 0, 0, 0, 0, 0]
        = (Inr \<lparr>ncols = 10, rows = []\<rparr>, self\<lparr>rng := g\<rparr>))"
proof -
  have h: "length [0, 0, 0, 0, 0, 0, 0, 0, 0, 0::real] = 10" by simp
  from zero_T_accepted[OF counter_gen_ok exact_inv_ok h, of "- 7" None "0::nat"]
  show ?thesis using counter_gen_ok exact_inv_ok by blast
qed


end
